theory Spec2Isabelle
  imports Complex_Main
begin

section \<open>krun: a thermal governor for one child process\<close>

text \<open>
  The program \<^verbatim>\<open>krun.c\<close> starts a command, samples six core temperatures in a loop,
  stops the command's process group when the hottest core is above one threshold and
  continues it when the hottest core is below another. This theory embeds the program
  function by function. Everything the program gets from outside (libsensors, \<^verbatim>\<open>strtod\<close>,
  \<^verbatim>\<open>fork\<close>, \<^verbatim>\<open>kill\<close>, \<^verbatim>\<open>waitid\<close>, the arrival of SIGINT) is an explicit input of the
  model; everything it does to the outside (lines on stdout and stderr, system calls,
  the exit status) is an explicit output.

  The values libsensors reads are modelled by real numbers (\<open>double\<close>): the program only
  compares them, and comparison of doubles that are numbers is exact. The thresholds come
  from \<^verbatim>\<open>strtod\<close>, which turns the argument \<^verbatim>\<open>nan\<close> into a not-a-number and \<^verbatim>\<open>inf\<close> into an
  infinity; they are modelled by \<open>c_double\<close>, with the comparisons of C, which are all false
  when an operand is not a number.
\<close>

subsection \<open>Data\<close>

type_synonym double = real

datatype c_double = NegInf | Num real | PosInf | NaN

text \<open>The C comparisons \<^verbatim>\<open>x < y\<close> and \<^verbatim>\<open>x <= y\<close> of two doubles; \<^verbatim>\<open>x > y\<close> is \<^verbatim>\<open>y < x\<close>.\<close>

fun c_less :: "c_double \<Rightarrow> c_double \<Rightarrow> bool" where
  "c_less (Num a) (Num b) = (a < b)"
| "c_less NegInf (Num b) = True"
| "c_less NegInf PosInf = True"
| "c_less (Num a) PosInf = True"
| "c_less _ _ = False"

fun c_le :: "c_double \<Rightarrow> c_double \<Rightarrow> bool" where
  "c_le (Num a) (Num b) = (a \<le> b)"
| "c_le NegInf NegInf = True"
| "c_le NegInf (Num b) = True"
| "c_le NegInf PosInf = True"
| "c_le (Num a) PosInf = True"
| "c_le PosInf PosInf = True"
| "c_le _ _ = False"
type_synonym pid_t = int

datatype signal = SIGSTOP | SIGCONT | SIGKILL

datatype subfeature_type = SENSORS_SUBFEATURE_TEMP_INPUT | SENSORS_SUBFEATURE_FAN_INPUT

text \<open>What libsensors knows of a chip: its features, each with an optional name and its
  subfeatures (type and number).\<close>

record sensors_feature =
  fname :: "string option"
  subfeatures :: "(subfeature_type \<times> int) list"

record sensors_chip =
  chip_id :: nat
  features :: "sensors_feature list"

text \<open>\<^verbatim>\<open>feature_t\<close>: the two names of the static tables, and the fields \<^verbatim>\<open>init_feature\<close>
  fills in and the reads use.\<close>

record feature_t =
  chip_name :: string
  feature_name :: string
  chip :: sensors_chip
  subfeature_i :: int

definition NUM_TEMPERATURE_FEATURES :: nat where
  "NUM_TEMPERATURE_FEATURES = 6"

definition NUM_FAN_FEATURES :: nat where
  "NUM_FAN_FEATURES = 2"

definition temperature_feature_names :: "(string \<times> string) list" where
  "temperature_feature_names =
     [(''coretemp-isa-0000'', ''temp2''), (''coretemp-isa-0000'', ''temp3''),
      (''coretemp-isa-0000'', ''temp4''), (''coretemp-isa-0000'', ''temp5''),
      (''coretemp-isa-0000'', ''temp6''), (''coretemp-isa-0000'', ''temp7'')]"

definition fan_feature_names :: "(string \<times> string) list" where
  "fan_feature_names = [(''nct6776-isa-0290'', ''fan1''), (''nct6776-isa-0290'', ''fan2'')]"

text \<open>\<^verbatim>\<open>struct timespec\<close> as seconds and nanoseconds.\<close>

definition hot_delay :: "nat \<times> nat" where
  "hot_delay = (1, 0)"

definition cool_delay :: "nat \<times> nat" where
  "cool_delay = (0, 100 * 1000000)"

text \<open>The lines the program prints on stdout, by their numeric prefix, with the values
  formatted into them.\<close>

datatype notice =
    N171 double pid_t
  | N172 double pid_t
  | N173
  | N174

text \<open>The lines the program prints on stderr.\<close>

datatype diag =
    Usage "string option"
  | HotTooHigh c_double
  | CoolTooLow c_double
  | HotBelowCool
  | SensorsInitError int
  | ParseChipError string int
  | FeatureNotFound string string
  | SubfeatureNotFound string string
  | ReadError string string int
  | SetPgrpError pid_t int
  | ExecError int
  | ContFailed pid_t int
  | StopFailed pid_t int
  | KillFailed pid_t int

text \<open>What the process does to the outside, in order.\<close>

datatype event =
    Stdout notice
  | Stderr diag
  | Kill pid_t signal
  | Waitid pid_t
  | Nanosleep "nat \<times> nat"

subsection \<open>The outside\<close>

text \<open>
  \<^verbatim>\<open>waitid(P_PID, child, &si, WEXITED | WNOHANG)\<close> is a system call; POSIX gives it three
  outcomes. When the child has terminated it fills \<^verbatim>\<open>si\<close> (with the child's status in
  \<^verbatim>\<open>si_status\<close>) and returns 0. When the child has not terminated, \<^verbatim>\<open>WNOHANG\<close> makes it
  return 0 at once. On an error (for instance \<^verbatim>\<open>ECHILD\<close>: there is no such child, or it has
  been waited for already) it returns -1. What the last two leave in \<^verbatim>\<open>si_status\<close> depends
  on the system, so the outcome says it: \<open>None\<close> when the field is left alone, \<open>Some v\<close> when
  \<open>v\<close> is stored.
\<close>

datatype waitid_outcome =
    ChildExited int
  | StillRunning "int option"
  | WaitError "int option"

record libsensors =
  sensors_init_rc :: int
  parse_chip_name_rc :: "string \<Rightarrow> int"
  detected_chips :: "string \<Rightarrow> sensors_chip list"

text \<open>What one pass through the loop meets: whether SIGINT was delivered (the handler has
  run) before the pass tests the flags, what a read of a chip's subfeature gives (return
  code and value), what \<^verbatim>\<open>kill\<close> returns, and what \<^verbatim>\<open>waitid\<close> finds. The process spends
  its time in \<^verbatim>\<open>nanosleep\<close>, between two passes. A delivery inside a pass leaves the flags
  as a delivery before that pass does when it falls between the test of a flag and its
  clearing, and as a delivery before the next pass does when it falls after them; so a
  signal belongs to the first pass that can see it. Calls into libsensors are not recorded
  as events.\<close>

record env =
  sigint :: bool
  sensors_get_value :: "sensors_chip \<Rightarrow> int \<Rightarrow> int \<times> double"
  kill_rc :: "pid_t \<Rightarrow> signal \<Rightarrow> int"
  reap :: waitid_outcome

text \<open>What \<^verbatim>\<open>start_child\<close> meets: the value \<^verbatim>\<open>fork\<close> returns in this process, the return
  code of \<^verbatim>\<open>setpgid\<close> and its \<^verbatim>\<open>errno\<close>, the value of \<^verbatim>\<open>getpgid\<close>, and, in the forked
  child, the \<^verbatim>\<open>errno\<close> of \<^verbatim>\<open>execvp\<close> when it fails.\<close>

record fork_env =
  fork_ret :: pid_t
  setpgid_rc :: int
  setpgid_errno :: int
  getpgid_ret :: pid_t
  execvp_errno :: "int option"

record world =
  strtod :: "string \<Rightarrow> c_double"
  lib :: libsensors
  proc :: fork_env
  passes :: "env list"

subsection \<open>The state of the loop\<close>

text \<open>The two globals the signal handler writes, and the locals \<^verbatim>\<open>hot\<close> and
  \<^verbatim>\<open>si.si_status\<close> of \<^verbatim>\<open>main\<close>.\<close>

record state =
  killed :: int
  hot_killed :: int
  hot :: int
  si_status :: int

record params =
  hot_threshold :: c_double
  cool_threshold :: c_double
  temperature_features :: "feature_t list"
  child :: pid_t

text \<open>How a pass ends: the loop goes round again, the loop is left by \<^verbatim>\<open>break\<close>, or the
  process ends in \<^verbatim>\<open>exit\<close> with the given argument.\<close>

datatype outcome =
    Continue state
  | Break state
  | Exit int

text \<open>How the process ends: with an exit status, or still in the loop when the recorded
  passes are used up, or (in the forked child) replaced by the command.\<close>

datatype result =
    Exited int
  | Running state
  | Execed

text \<open>The status a parent sees is the low eight bits of the argument of \<^verbatim>\<open>exit\<close> or of
  the value \<^verbatim>\<open>main\<close> returns.\<close>

definition exit_status :: "int \<Rightarrow> int" where
  "exit_status n = n mod 256"

subsection \<open>Resolving the sensors\<close>

fun find_feature :: "string \<Rightarrow> sensors_feature list \<Rightarrow> sensors_feature option" where
  "find_feature n [] = None"
| "find_feature n (f # fs) = (if fname f = Some n then Some f else find_feature n fs)"

fun find_chip :: "string \<Rightarrow> sensors_chip list \<Rightarrow> (sensors_chip \<times> sensors_feature) option" where
  "find_chip n [] = None"
| "find_chip n (c # cs) =
     (case find_feature n (features c) of
        Some f \<Rightarrow> Some (c, f)
      | None \<Rightarrow> find_chip n cs)"

definition init_feature :: "libsensors \<Rightarrow> string \<times> string \<Rightarrow> subfeature_type \<Rightarrow> diag + feature_t" where
  "init_feature l f feature_type =
     (let rc = parse_chip_name_rc l (fst f) in
      if rc \<noteq> 0 then Inl (ParseChipError (fst f) rc)
      else case find_chip (snd f) (detected_chips l (fst f)) of
             None \<Rightarrow> Inl (FeatureNotFound (snd f) (fst f))
           | Some (c, ft) \<Rightarrow>
               (case map_of (subfeatures ft) feature_type of
                  None \<Rightarrow> Inl (SubfeatureNotFound (fst f) (snd f))
                | Some n \<Rightarrow>
                    Inr \<lparr>chip_name = fst f, feature_name = snd f, chip = c, subfeature_i = n\<rparr>))"

fun init_features :: "libsensors \<Rightarrow> (string \<times> string) list \<Rightarrow> subfeature_type \<Rightarrow> diag + feature_t list" where
  "init_features l [] ty = Inr []"
| "init_features l (f # fs) ty =
     (case init_feature l f ty of
        Inl d \<Rightarrow> Inl d
      | Inr r \<Rightarrow> (case init_features l fs ty of Inl d \<Rightarrow> Inl d | Inr rs \<Rightarrow> Inr (r # rs)))"

text \<open>\<^verbatim>\<open>init\<close>: the result is the filled temperature table, or the diagnostic printed
  before \<^verbatim>\<open>exit(-1)\<close>.\<close>

definition init :: "libsensors \<Rightarrow> diag + feature_t list" where
  "init l =
     (if sensors_init_rc l \<noteq> 0 then Inl (SensorsInitError (sensors_init_rc l))
      else case init_features l temperature_feature_names SENSORS_SUBFEATURE_TEMP_INPUT of
             Inl d \<Rightarrow> Inl d
           | Inr ts \<Rightarrow>
               (case init_features l fan_feature_names SENSORS_SUBFEATURE_FAN_INPUT of
                  Inl d \<Rightarrow> Inl d
                | Inr fs \<Rightarrow> Inr ts))"

subsection \<open>Sampling\<close>

text \<open>The loop of \<^verbatim>\<open>detect_temp\<close> over the table, with the running maximum.\<close>

fun detect_temp_from :: "(sensors_chip \<Rightarrow> int \<Rightarrow> int \<times> double) \<Rightarrow> feature_t list \<Rightarrow> double \<Rightarrow> diag + double" where
  "detect_temp_from rd [] mx = Inr mx"
| "detect_temp_from rd (f # fs) mx =
     (case rd (chip f) (subfeature_i f) of
        (rc, v) \<Rightarrow>
          if rc \<noteq> 0 then Inl (ReadError (chip_name f) (feature_name f) rc)
          else detect_temp_from rd fs (if v > mx then v else mx))"

definition detect_temp :: "(sensors_chip \<Rightarrow> int \<Rightarrow> int \<times> double) \<Rightarrow> feature_t list \<Rightarrow> diag + double" where
  "detect_temp rd fs = detect_temp_from rd fs (- 1.0)"

subsection \<open>The child\<close>

datatype started = Parent pid_t | Failed diag | Replaced

definition start_child :: "fork_env \<Rightarrow> started" where
  "start_child k =
     (let p = fork_ret k in
      if p \<noteq> 0 then
        (if setpgid_rc k \<noteq> 0 \<and> getpgid_ret k \<noteq> p then Failed (SetPgrpError p (setpgid_errno k))
         else Parent p)
      else case execvp_errno k of
             None \<Rightarrow> Replaced
           | Some err \<Rightarrow> Failed (ExecError err))"

definition resume :: "env \<Rightarrow> pid_t \<Rightarrow> event list" where
  "resume e c =
     (let rc = kill_rc e (- c) SIGCONT in
      Kill (- c) SIGCONT # (if rc \<noteq> 0 then [Stderr (ContFailed c rc)] else []))"

definition suspend :: "env \<Rightarrow> pid_t \<Rightarrow> event list" where
  "suspend e c =
     (let rc = kill_rc e (- c) SIGSTOP in
      Kill (- c) SIGSTOP # (if rc \<noteq> 0 then [Stderr (StopFailed c rc)] else []))"

definition kill_child :: "env \<Rightarrow> pid_t \<Rightarrow> event list" where
  "kill_child e c =
     (let rc = kill_rc e c SIGKILL in
      Kill c SIGKILL # (if rc \<noteq> 0 then [Stderr (KillFailed c rc)] else []))"

text \<open>The call of \<^verbatim>\<open>waitid\<close>: the value returned and the state with \<^verbatim>\<open>si.si_status\<close> as the
  call leaves it.\<close>

fun waitid :: "waitid_outcome \<Rightarrow> state \<Rightarrow> int \<times> state" where
  "waitid (ChildExited st) s = (0, s\<lparr>si_status := st\<rparr>)"
| "waitid (StillRunning w) s = (0, case w of None \<Rightarrow> s | Some v \<Rightarrow> s\<lparr>si_status := v\<rparr>)"
| "waitid (WaitError w) s = (- 1, case w of None \<Rightarrow> s | Some v \<Rightarrow> s\<lparr>si_status := v\<rparr>)"

subsection \<open>The signal handler\<close>

definition handle_INT :: "state \<Rightarrow> state" where
  "handle_INT s = s\<lparr>killed := 1, hot_killed := 1\<rparr>"

subsection \<open>One pass through the loop\<close>

definition delay :: "state \<Rightarrow> nat \<times> nat" where
  "delay s = (if hot s \<noteq> 0 then hot_delay else cool_delay)"

definition hot_pass :: "params \<Rightarrow> env \<Rightarrow> double \<Rightarrow> state \<Rightarrow> event list \<times> outcome" where
  "hot_pass p e t s =
     (let (o1, s1) = (if hot_killed s \<noteq> 0 then ([Stdout N173], s\<lparr>hot_killed := 0\<rparr>) else ([], s));
          (o2, s2) = (if c_less (Num t) (cool_threshold p)
                      then (Stdout (N172 t (child p)) # resume e (child p), s1\<lparr>hot := 0\<rparr>)
                      else ([], s1))
      in (o1 @ o2 @ [Nanosleep (delay s2)], Continue s2))"

definition cool_pass :: "params \<Rightarrow> env \<Rightarrow> double \<Rightarrow> state \<Rightarrow> event list \<times> outcome" where
  "cool_pass p e t s =
     (let (o1, s1) = (if killed s \<noteq> 0
                      then (Stdout N174 # kill_child e (child p), s\<lparr>killed := 0\<rparr>)
                      else ([], s));
          (waited, s2) = waitid (reap e) s1
      in if waited \<noteq> 0 then (o1 @ [Waitid (child p)], Break s2)
         else
           (let (o3, s3) = (if c_less (hot_threshold p) (Num t)
                            then (Stdout (N171 t (child p)) # suspend e (child p), s2\<lparr>hot := 1\<rparr>)
                            else ([], s2))
            in (o1 @ [Waitid (child p)] @ o3 @ [Nanosleep (delay s3)], Continue s3)))"

text \<open>A pass: the handler has run if SIGINT came, then the body of \<^verbatim>\<open>while (1)\<close>.\<close>

definition pass :: "params \<Rightarrow> env \<Rightarrow> state \<Rightarrow> event list \<times> outcome" where
  "pass p e s0 =
     (let s = (if sigint e then handle_INT s0 else s0) in
      case detect_temp (sensors_get_value e) (temperature_features p) of
        Inl d \<Rightarrow> ([Stderr d], Exit (- 1))
      | Inr t \<Rightarrow> if hot s \<noteq> 0 then hot_pass p e t s else cool_pass p e t s)"

text \<open>The loop over the recorded passes. When they are used up the loop is still
  running, in the state reached.\<close>

fun loop :: "params \<Rightarrow> env list \<Rightarrow> state \<Rightarrow> event list \<times> outcome" where
  "loop p [] s = ([], Continue s)"
| "loop p (e # es) s =
     (case pass p e s of
        (ev, Continue s') \<Rightarrow> (case loop p es s' of (ev', r) \<Rightarrow> (ev @ ev', r))
      | (ev, r) \<Rightarrow> (ev, r))"

subsection \<open>The program\<close>

text \<open>The checks at the head of \<^verbatim>\<open>main\<close>: the diagnostic printed before \<^verbatim>\<open>exit(-1)\<close>, or
  the two thresholds.\<close>

definition check_args :: "(string \<Rightarrow> c_double) \<Rightarrow> string list \<Rightarrow> diag + c_double \<times> c_double" where
  "check_args conv argv =
     (if length argv < 4 then Inl (Usage (case argv of [] \<Rightarrow> None | a # _ \<Rightarrow> Some a))
      else
        (let h = conv (argv ! 1) in
         if c_less (Num 90.0) h then Inl (HotTooHigh h)
         else
           (let c = conv (argv ! 2) in
            if c_less c (Num 30.0) then Inl (CoolTooLow c)
            else if c_less h c then Inl HotBelowCool
            else Inr (h, c))))"

definition initial :: state where
  "initial = \<lparr>killed = 0, hot_killed = 0, hot = 0, si_status = 0\<rparr>"

definition main :: "world \<Rightarrow> string list \<Rightarrow> event list \<times> result" where
  "main w argv =
     (case check_args (strtod w) argv of
        Inl d \<Rightarrow> ([Stderr d], Exited (exit_status (- 1)))
      | Inr (h, c) \<Rightarrow>
          (case init (lib w) of
             Inl d \<Rightarrow> ([Stderr d], Exited (exit_status (- 1)))
           | Inr ts \<Rightarrow>
               (case start_child (proc w) of
                  Failed d \<Rightarrow> ([Stderr d], Exited (exit_status (- 1)))
                | Replaced \<Rightarrow> ([], Execed)
                | Parent pid \<Rightarrow>
                    (case loop \<lparr>hot_threshold = h, cool_threshold = c,
                                temperature_features = ts, child = pid\<rparr> (passes w) initial of
                       (ev, Continue s) \<Rightarrow> (ev, Running s)
                     | (ev, Break s) \<Rightarrow> (ev, Exited (exit_status (si_status s)))
                     | (ev, Exit n) \<Rightarrow> (ev, Exited (exit_status n))))))"

subsection \<open>Vocabulary of the properties\<close>

text \<open>How many \<^verbatim>\<open>kill\<close> calls with a given signal a list of events holds.\<close>

fun is_kill :: "signal \<Rightarrow> event \<Rightarrow> bool" where
  "is_kill sg (Kill q sg') = (sg = sg')"
| "is_kill sg _ = False"

definition count_kill :: "signal \<Rightarrow> event list \<Rightarrow> nat" where
  "count_kill sg ev = length (filter (is_kill sg) ev)"

text \<open>Whether the \<^verbatim>\<open>waitid\<close> call fails.\<close>

fun wait_failed :: "waitid_outcome \<Rightarrow> bool" where
  "wait_failed (WaitError w) = True"
| "wait_failed _ = False"

text \<open>The temperature a pass samples; \<open>sampled p e P\<close> says that the sample succeeds with
  a temperature that satisfies \<open>P\<close>.\<close>

definition sample :: "params \<Rightarrow> env \<Rightarrow> diag + double" where
  "sample p e = detect_temp (sensors_get_value e) (temperature_features p)"

definition sampled :: "params \<Rightarrow> env \<Rightarrow> (double \<Rightarrow> bool) \<Rightarrow> bool" where
  "sampled p e P = (case sample p e of Inl d \<Rightarrow> False | Inr t \<Rightarrow> P t)"

text \<open>The values the sensors give for a table, and whether every read of the table
  succeeds.\<close>

definition readings :: "(sensors_chip \<Rightarrow> int \<Rightarrow> int \<times> double) \<Rightarrow> feature_t list \<Rightarrow> double list" where
  "readings rd fs = map (\<lambda>f. snd (rd (chip f) (subfeature_i f))) fs"

definition all_read :: "(sensors_chip \<Rightarrow> int \<Rightarrow> int \<times> double) \<Rightarrow> feature_t list \<Rightarrow> bool" where
  "all_read rd fs = list_all (\<lambda>f. fst (rd (chip f) (subfeature_i f)) = 0) fs"

subsection \<open>A machine to run the program on\<close>

text \<open>One chip that has the eight features of the two tables, sensors that all read the
  same temperature (or, for \<open>example_ramp\<close>, 40 plus the number of the subfeature),
  signals that are always delivered, a child with pid 4321, and thresholds 75 and 60.\<close>

definition example_chip :: sensors_chip where
  "example_chip =
     \<lparr>chip_id = 0,
      features =
        [\<lparr>fname = Some ''temp2'', subfeatures = [(SENSORS_SUBFEATURE_TEMP_INPUT, 0)]\<rparr>,
         \<lparr>fname = Some ''temp3'', subfeatures = [(SENSORS_SUBFEATURE_TEMP_INPUT, 1)]\<rparr>,
         \<lparr>fname = Some ''temp4'', subfeatures = [(SENSORS_SUBFEATURE_TEMP_INPUT, 2)]\<rparr>,
         \<lparr>fname = Some ''temp5'', subfeatures = [(SENSORS_SUBFEATURE_TEMP_INPUT, 3)]\<rparr>,
         \<lparr>fname = Some ''temp6'', subfeatures = [(SENSORS_SUBFEATURE_TEMP_INPUT, 4)]\<rparr>,
         \<lparr>fname = Some ''temp7'', subfeatures = [(SENSORS_SUBFEATURE_TEMP_INPUT, 5)]\<rparr>,
         \<lparr>fname = Some ''fan1'', subfeatures = [(SENSORS_SUBFEATURE_FAN_INPUT, 6)]\<rparr>,
         \<lparr>fname = Some ''fan2'', subfeatures = [(SENSORS_SUBFEATURE_FAN_INPUT, 7)]\<rparr>]\<rparr>"

definition example_lib :: libsensors where
  "example_lib =
     \<lparr>sensors_init_rc = 0, parse_chip_name_rc = (\<lambda>n. 0), detected_chips = (\<lambda>n. [example_chip])\<rparr>"

definition example_features :: "feature_t list" where
  "example_features =
     map (\<lambda>(n, i). \<lparr>chip_name = ''coretemp-isa-0000'', feature_name = n,
                     chip = example_chip, subfeature_i = i\<rparr>)
       [(''temp2'', 0), (''temp3'', 1), (''temp4'', 2), (''temp5'', 3), (''temp6'', 4), (''temp7'', 5)]"

definition example_read :: "double \<Rightarrow> sensors_chip \<Rightarrow> int \<Rightarrow> int \<times> double" where
  "example_read t c n = (0, t)"

definition example_ramp :: "sensors_chip \<Rightarrow> int \<Rightarrow> int \<times> double" where
  "example_ramp c n = (0, real_of_int n + 40)"

definition example_env :: "bool \<Rightarrow> double \<Rightarrow> waitid_outcome \<Rightarrow> env" where
  "example_env i t w =
     \<lparr>sigint = i, sensors_get_value = example_read t, kill_rc = (\<lambda>q sg. 0), reap = w\<rparr>"

definition example_params :: params where
  "example_params =
     \<lparr>hot_threshold = Num 75, cool_threshold = Num 60, temperature_features = example_features,
      child = 4321\<rparr>"

text \<open>A stand-in for \<^verbatim>\<open>strtod\<close> on the arguments used below; like \<^verbatim>\<open>strtod\<close> it turns \<^verbatim>\<open>nan\<close>
  into a not-a-number and text that is no number into 0.\<close>

definition example_strtod :: "string \<Rightarrow> c_double" where
  "example_strtod a =
     (if a = ''nan'' then NaN
      else if a = ''91'' then Num 91 else if a = ''80'' then Num 80 else if a = ''75'' then Num 75
      else if a = ''70'' then Num 70 else if a = ''60'' then Num 60 else if a = ''50'' then Num 50
      else if a = ''20'' then Num 20 else Num 0)"

definition example_world :: "env list \<Rightarrow> world" where
  "example_world es =
     \<lparr>strtod = example_strtod, lib = example_lib,
      proc = \<lparr>fork_ret = 4321, setpgid_rc = 0, setpgid_errno = 0, getpgid_ret = 4321,
              execvp_errno = None\<rparr>,
      passes = es\<rparr>"

definition example_argv :: "string list" where
  "example_argv = [''krun'', ''75'', ''60'', ''sleep'', ''1000'']"

definition nan_argv :: "string list" where
  "nan_argv = [''krun'', ''nan'', ''nan'', ''sleep'', ''1000'']"

definition heated :: state where
  "heated = \<lparr>killed = 0, hot_killed = 0, hot = 1, si_status = 0\<rparr>"

section \<open>Properties\<close>

subsection \<open>Comparisons of doubles\<close>

lemma c_le_not_less [simp]: "c_le x y \<Longrightarrow> \<not> c_less y x"
  by (cases x; cases y) simp_all

lemma c_less_not_le: "c_less x y \<Longrightarrow> \<not> c_le y x"
  by (cases x; cases y) simp_all

text \<open>On doubles that are not not-a-number, \<^verbatim>\<open>x < y\<close> is false exactly when \<^verbatim>\<open>y <= x\<close>
  holds; a not-a-number makes both false.\<close>

lemma c_not_less_iff_le: "x \<noteq> NaN \<Longrightarrow> y \<noteq> NaN \<Longrightarrow> \<not> c_less x y \<longleftrightarrow> c_le y x"
  by (cases x; cases y) auto

lemma c_NaN [simp]:
  "\<not> c_less NaN x" "\<not> c_less x NaN" "\<not> c_le NaN x" "\<not> c_le x NaN"
  by (cases x; simp)+

subsection \<open>Evaluation on the example machine\<close>

lemmas run_defs = pass_def hot_pass_def cool_pass_def detect_temp_def handle_INT_def
  resume_def suspend_def kill_child_def delay_def hot_delay_def cool_delay_def initial_def
  heated_def Let_def

lemmas example_defs = example_params_def example_env_def example_features_def example_read_def

lemma count_kill_simps [simp]:
  "count_kill sg [] = 0"
  "count_kill sg (Kill q sg' # ev) = (if sg = sg' then Suc (count_kill sg ev) else count_kill sg ev)"
  "count_kill sg (Stdout n # ev) = count_kill sg ev"
  "count_kill sg (Stderr d # ev) = count_kill sg ev"
  "count_kill sg (Waitid q # ev) = count_kill sg ev"
  "count_kill sg (Nanosleep ts # ev) = count_kill sg ev"
  "count_kill sg (ev @ ev') = count_kill sg ev + count_kill sg ev'"
  by (simp_all add: count_kill_def)

lemma example_init: "init example_lib = Inr example_features"
  by (simp add: init_def init_feature_def example_lib_def example_chip_def example_features_def
      temperature_feature_names_def fan_feature_names_def)

lemma example_sample: "sample example_params (example_env i t w) = Inr (max (- 1) t)"
  by (simp add: sample_def example_defs detect_temp_def max_def)

lemma example_sampled: "sampled example_params (example_env i t w) P = P (max (- 1) t)"
  by (simp add: sampled_def example_sample)

lemma example_check: "check_args (strtod (example_world es)) example_argv = Inr (Num 75, Num 60)"
  by (simp add: check_args_def example_strtod_def example_world_def example_argv_def)

lemma example_start: "start_child (proc (example_world es)) = Parent 4321"
  by (simp add: start_child_def example_world_def)

lemma example_fields [simp]:
  "hot_threshold example_params = Num 75"
  "cool_threshold example_params = Num 60"
  "child example_params = 4321"
  "sigint (example_env i t w) = i"
  "reap (example_env i t w) = w"
  "lib (example_world es) = example_lib"
  "passes (example_world es) = es"
  by (simp_all add: example_params_def example_env_def example_world_def)

subsection \<open>The tables\<close>

lemma table_sizes:
  "length temperature_feature_names = NUM_TEMPERATURE_FEATURES"
  "length fan_feature_names = NUM_FAN_FEATURES"
  by (simp_all add: temperature_feature_names_def fan_feature_names_def
      NUM_TEMPERATURE_FEATURES_def NUM_FAN_FEATURES_def)

lemma init_features_length:
  "init_features l fs ty = Inr rs \<Longrightarrow> length rs = length fs"
  by (induction fs arbitrary: rs) (auto split: sum.splits)

text \<open>After a successful \<^verbatim>\<open>init\<close> the temperature table has its six resolved entries.\<close>

lemma init_length:
  "init l = Inr ts \<Longrightarrow> length ts = NUM_TEMPERATURE_FEATURES"
  by (auto simp: init_def table_sizes[symmetric] dest: init_features_length
           split: if_splits sum.splits)

subsection \<open>Sampling\<close>

lemma detect_temp_from_max:
  "all_read rd fs \<Longrightarrow> detect_temp_from rd fs mx = Inr (Max (insert mx (set (readings rd fs))))"
proof (induction fs arbitrary: mx)
  case Nil
  then show ?case by (simp add: readings_def)
next
  case (Cons f fs)
  obtain rc v where rv: "rd (chip f) (subfeature_i f) = (rc, v)"
    by (cases "rd (chip f) (subfeature_i f)")
  from Cons.prems rv have rc: "rc = 0" and rest: "all_read rd fs"
    by (simp_all add: all_read_def)
  have fin: "finite (set (readings rd fs))" by simp
  have "Max (insert (if v > mx then v else mx) (set (readings rd fs)))
      = Max (insert mx (insert v (set (readings rd fs))))"
    using fin by (cases "set (readings rd fs) = {}") (auto simp: max_def)
  then show ?case using Cons.IH[OF rest] rv rc by (simp add: readings_def)
qed

lemma detect_temp_fails:
  "\<not> all_read rd fs \<Longrightarrow> \<exists>d. detect_temp_from rd fs mx = Inl d"
  by (induction fs arbitrary: mx) (auto simp: all_read_def split: prod.splits)

lemma sampledD: "sampled p e P \<Longrightarrow> \<exists>t. sample p e = Inr t \<and> P t"
  by (cases "sample p e") (simp_all add: sampled_def)

lemma sample_reap [simp]: "sample p (e\<lparr>reap := w\<rparr>) = sample p e"
  by (simp add: sample_def)

subsection \<open>One pass\<close>

lemma pass_hot:
  "hot s \<noteq> 0 \<Longrightarrow> sample p e = Inr t \<Longrightarrow>
     pass p e s = hot_pass p e t (if sigint e then handle_INT s else s)"
  by (simp add: pass_def sample_def handle_INT_def)

lemma pass_cool:
  "hot s = 0 \<Longrightarrow> sample p e = Inr t \<Longrightarrow>
     pass p e s = cool_pass p e t (if sigint e then handle_INT s else s)"
  by (simp add: pass_def sample_def handle_INT_def)

text \<open>The loop is left by \<^verbatim>\<open>break\<close> on exactly the passes that start with \<^verbatim>\<open>hot\<close> clear,
  sample a temperature, and on which \<^verbatim>\<open>waitid\<close> fails.\<close>

lemma pass_break_iff:
  "(\<exists>ev s'. pass p e s = (ev, Break s')) \<longleftrightarrow>
     (hot s = 0 \<and> (\<exists>t. sample p e = Inr t) \<and> wait_failed (reap e))"
  by (cases "reap e"; cases "sample p e")
     (auto simp: pass_def sample_def cool_pass_def hot_pass_def handle_INT_def Let_def
           split: option.splits prod.splits)

lemma hot_pass_shape:
  assumes "hot s \<noteq> 0" "sample p e = Inr t"
  shows "\<exists>ev s'. pass p e s = (ev, Continue s') \<and> count_kill SIGKILL ev = 0
      \<and> count_kill SIGSTOP ev = 0
      \<and> (\<forall>q. Waitid q \<notin> set ev)
      \<and> hot s' = (if c_less (Num t) (cool_threshold p) then 0 else hot s)
      \<and> hot_killed s' = 0
      \<and> (sigint e \<longrightarrow> killed s' = 1)
      \<and> (\<not> sigint e \<longrightarrow> killed s' = killed s)
      \<and> (killed s \<noteq> 0 \<longrightarrow> killed s' \<noteq> 0)
      \<and> si_status s' = si_status s
      \<and> (sigint e \<or> hot_killed s \<noteq> 0 \<longrightarrow> Stdout N173 \<in> set ev)
      \<and> (c_less (Num t) (cool_threshold p) \<longrightarrow> Stdout (N172 t (child p)) \<in> set ev
            \<and> Kill (- child p) SIGCONT \<in> set ev \<and> count_kill SIGCONT ev = 1)
      \<and> (\<not> c_less (Num t) (cool_threshold p) \<longrightarrow> count_kill SIGCONT ev = 0)"
  using assms
  by (auto simp: pass_hot hot_pass_def handle_INT_def resume_def Let_def)

lemma cool_pass_shape:
  assumes "hot s = 0" "sample p e = Inr t" "\<not> wait_failed (reap e)"
  shows "\<exists>ev s'. pass p e s = (ev, Continue s')
      \<and> hot s' = (if c_less (hot_threshold p) (Num t) then 1 else 0)
      \<and> killed s' = 0
      \<and> (sigint e \<longrightarrow> hot_killed s' = 1)
      \<and> (\<not> sigint e \<longrightarrow> hot_killed s' = hot_killed s)
      \<and> (sigint e \<or> killed s \<noteq> 0 \<longrightarrow> count_kill SIGKILL ev = 1 \<and> Stdout N174 \<in> set ev
            \<and> Kill (child p) SIGKILL \<in> set ev)
      \<and> (\<not> sigint e \<and> killed s = 0 \<longrightarrow> count_kill SIGKILL ev = 0)
      \<and> Stdout N173 \<notin> set ev
      \<and> count_kill SIGCONT ev = 0
      \<and> (c_less (hot_threshold p) (Num t) \<longrightarrow> Stdout (N171 t (child p)) \<in> set ev
            \<and> Kill (- child p) SIGSTOP \<in> set ev \<and> count_kill SIGSTOP ev = 1)
      \<and> (\<not> c_less (hot_threshold p) (Num t) \<longrightarrow> count_kill SIGSTOP ev = 0)"
  using assms
  by (cases "reap e")
     (auto simp: pass_cool cool_pass_def handle_INT_def kill_child_def suspend_def Let_def
           split: option.splits)

lemma cool_pass_kills:
  assumes "hot s = 0" "sample p e = Inr t" "killed s \<noteq> 0 \<or> sigint e"
  shows "\<exists>ev r. pass p e s = (ev, r) \<and> Stdout N174 \<in> set ev \<and> Kill (child p) SIGKILL \<in> set ev
      \<and> count_kill SIGKILL ev = 1"
  using assms
  by (cases "reap e")
     (auto simp: pass_cool cool_pass_def handle_INT_def kill_child_def suspend_def Let_def
           split: option.splits)

lemma hot_pass_ignores_reap:
  "hot s \<noteq> 0 \<Longrightarrow> pass p (e\<lparr>reap := w\<rparr>) s = pass p e s"
  by (cases "sample p e")
     (simp_all add: pass_def sample_def hot_pass_def handle_INT_def resume_def Let_def)

lemma hot_pass_no_reap:
  assumes "hot s \<noteq> 0"
  shows "Waitid q \<notin> set (fst (pass p e s))" and "snd (pass p e s) \<noteq> Break s'"
proof -
  show "Waitid q \<notin> set (fst (pass p e s))"
  proof (cases "sample p e")
    case (Inl d)
    then show ?thesis by (simp add: pass_def sample_def)
  next
    case (Inr t)
    from hot_pass_shape[OF assms Inr] show ?thesis by auto
  qed
  show "snd (pass p e s) \<noteq> Break s'"
    using pass_break_iff[of p e s] assms by (cases "pass p e s") auto
qed

lemma hot_pass_stays:
  assumes "hot s \<noteq> 0" "\<not> sampled p e (\<lambda>t. c_less (Num t) (cool_threshold p))"
  shows "(\<exists>ev d. pass p e s = (ev, Exit d) \<and> (\<forall>q. Waitid q \<notin> set ev))
       \<or> (\<exists>ev s'. pass p e s = (ev, Continue s') \<and> hot s' = hot s \<and> (\<forall>q. Waitid q \<notin> set ev))"
proof (cases "sample p e")
  case (Inl d)
  then show ?thesis by (auto simp: pass_def sample_def)
next
  case (Inr t)
  with assms(2) have "\<not> c_less (Num t) (cool_threshold p)" by (simp add: sampled_def)
  with hot_pass_shape[OF assms(1) Inr] show ?thesis by auto
qed

subsection \<open>Several passes\<close>

lemma loop_single: "loop p [e] s = pass p e s"
  by (cases "pass p e s"; cases "snd (pass p e s)") auto

lemma loop_Cons_Continue:
  "pass p e s = (ev, Continue s') \<Longrightarrow> loop p es s' = (ev', r) \<Longrightarrow> loop p (e # es) s = (ev @ ev', r)"
  by simp

lemma loop_append:
  "loop p es s = (ev, Continue s') \<Longrightarrow> loop p es' s' = (ev', r) \<Longrightarrow>
     loop p (es @ es') s = (ev @ ev', r)"
proof (induction es arbitrary: s ev)
  case Nil
  then show ?case by simp
next
  case (Cons e es)
  obtain ev1 r1 where p1: "pass p e s = (ev1, r1)" by (cases "pass p e s")
  show ?case
  proof (cases r1)
    case (Continue s1)
    obtain ev2 r2 where l2: "loop p es s1 = (ev2, r2)" by (cases "loop p es s1")
    with Cons.prems(1) p1 Continue have "r2 = Continue s'" and ev: "ev = ev1 @ ev2" by simp_all
    with l2 Cons.IH[OF _ Cons.prems(2)] have "loop p (es @ es') s1 = (ev2 @ ev', r)" by simp
    with p1 Continue ev show ?thesis by simp
  next
    case (Break s1)
    with Cons.prems(1) p1 show ?thesis by simp
  next
    case (Exit n)
    with Cons.prems(1) p1 show ?thesis by simp
  qed
qed

text \<open>While the samples are not below the cool threshold, a run that starts with \<^verbatim>\<open>hot\<close>
  set keeps it set, sends no SIGKILL and no SIGSTOP, and keeps \<^verbatim>\<open>killed\<close> set.\<close>

lemma hot_run:
  assumes "hot s \<noteq> 0" "\<forall>e\<in>set hs. sampled p e (\<lambda>t. c_le (cool_threshold p) (Num t))"
  shows "\<exists>ev s'. loop p hs s = (ev, Continue s') \<and> count_kill SIGKILL ev = 0
      \<and> count_kill SIGSTOP ev = 0 \<and> hot s' = hot s
      \<and> (killed s \<noteq> 0 \<longrightarrow> killed s' \<noteq> 0)"
  using assms
proof (induction hs arbitrary: s)
  case Nil
  then show ?case by simp
next
  case (Cons e hs)
  from Cons.prems(2) obtain t where t: "sample p e = Inr t" "c_le (cool_threshold p) (Num t)"
    using sampledD by fastforce
  from hot_pass_shape[OF Cons.prems(1) t(1)] t(2) obtain ev1 s1 where
    p1: "pass p e s = (ev1, Continue s1)" "count_kill SIGKILL ev1 = 0"
        "count_kill SIGSTOP ev1 = 0" "hot s1 = hot s" "killed s \<noteq> 0 \<longrightarrow> killed s1 \<noteq> 0"
    by auto
  from Cons.prems have "hot s1 \<noteq> 0" "\<forall>e\<in>set hs. sampled p e (\<lambda>t. c_le (cool_threshold p) (Num t))"
    using p1(4) by simp_all
  from Cons.IH[OF this] obtain ev2 s2 where
    l2: "loop p hs s1 = (ev2, Continue s2)" "count_kill SIGKILL ev2 = 0"
        "count_kill SIGSTOP ev2 = 0" "hot s2 = hot s1" "killed s1 \<noteq> 0 \<longrightarrow> killed s2 \<noteq> 0"
    by auto
  from loop_Cons_Continue[OF p1(1) l2(1)] p1 l2 show ?case by simp
qed

text \<open>While the samples are not above the hot threshold, no SIGINT comes and \<^verbatim>\<open>waitid\<close>
  does not fail, a run that starts with \<^verbatim>\<open>hot\<close> and \<^verbatim>\<open>killed\<close> clear keeps them clear and
  leaves \<^verbatim>\<open>hot_killed\<close> as it is.\<close>

lemma cool_run:
  assumes "hot s = 0" "killed s = 0"
    and "\<forall>e\<in>set cs. \<not> sigint e \<and> sampled p e (\<lambda>t. c_le (Num t) (hot_threshold p)) \<and> \<not> wait_failed (reap e)"
  shows "\<exists>ev s'. loop p cs s = (ev, Continue s') \<and> hot s' = 0 \<and> killed s' = 0
      \<and> hot_killed s' = hot_killed s \<and> count_kill SIGKILL ev = 0 \<and> Stdout N173 \<notin> set ev"
  using assms
proof (induction cs arbitrary: s)
  case Nil
  then show ?case by simp
next
  case (Cons e cs)
  from Cons.prems(3) obtain t where t: "sample p e = Inr t" "c_le (Num t) (hot_threshold p)"
    using sampledD by fastforce
  from Cons.prems(3) have e: "\<not> sigint e" "\<not> wait_failed (reap e)" by simp_all
  from cool_pass_shape[OF Cons.prems(1) t(1) e(2)] t(2) e(1) Cons.prems(2) obtain ev1 s1 where
    p1: "pass p e s = (ev1, Continue s1)" "hot s1 = 0" "killed s1 = 0"
        "hot_killed s1 = hot_killed s" "count_kill SIGKILL ev1 = 0" "Stdout N173 \<notin> set ev1"
    by auto
  from Cons.prems(3)
  have "\<forall>e\<in>set cs. \<not> sigint e \<and> sampled p e (\<lambda>t. c_le (Num t) (hot_threshold p)) \<and> \<not> wait_failed (reap e)"
    by simp
  from Cons.IH[OF p1(2) p1(3) this] obtain ev2 s2 where
    l2: "loop p cs s1 = (ev2, Continue s2)" "hot s2 = 0" "killed s2 = 0"
        "hot_killed s2 = hot_killed s1" "count_kill SIGKILL ev2 = 0" "Stdout N173 \<notin> set ev2"
    by auto
  from loop_Cons_Continue[OF p1(1) l2(1)] p1 l2 show ?case by simp
qed

subsection \<open>The program\<close>

lemma main_fatal:
  "check_args (strtod w) argv = Inl d \<Longrightarrow> main w argv = ([Stderr d], Exited 255)"
  by (simp add: main_def exit_status_def)

lemma main_init_fatal:
  "check_args (strtod w) argv = Inr hc \<Longrightarrow> init (lib w) = Inl d \<Longrightarrow>
     main w argv = ([Stderr d], Exited 255)"
  by (cases hc) (simp add: main_def exit_status_def)

lemma main_start_fatal:
  "check_args (strtod w) argv = Inr hc \<Longrightarrow> init (lib w) = Inr ts \<Longrightarrow>
     start_child (proc w) = Failed d \<Longrightarrow> main w argv = ([Stderr d], Exited 255)"
  by (cases hc) (simp add: main_def exit_status_def)

lemma main_break:
  "check_args (strtod w) argv = Inr (h, c) \<Longrightarrow> init (lib w) = Inr ts \<Longrightarrow>
   start_child (proc w) = Parent pid \<Longrightarrow>
   loop \<lparr>hot_threshold = h, cool_threshold = c, temperature_features = ts, child = pid\<rparr>
     (passes w) initial = (ev, Break s) \<Longrightarrow>
   main w argv = (ev, Exited (si_status s mod 256))"
  by (simp add: main_def exit_status_def)

text \<open>Every refusal of the thresholds is the breach of one of hot \<open>\<le>\<close> 90, cool \<open>\<ge>\<close> 30,
  hot \<open>\<ge>\<close> cool; and thresholds of which neither is a not-a-number are refused as soon as
  they break one of the three.\<close>

lemma check_args_refused:
  "4 \<le> length argv \<Longrightarrow> check_args conv argv = Inl d \<Longrightarrow>
     \<not> (c_le (conv (argv ! 1)) (Num 90) \<and> c_le (Num 30) (conv (argv ! 2))
         \<and> c_le (conv (argv ! 2)) (conv (argv ! 1)))"
  by (auto simp: check_args_def Let_def split: if_splits dest: c_less_not_le)

lemma check_args_rejects:
  assumes "4 \<le> length argv" "conv (argv ! 1) \<noteq> NaN" "conv (argv ! 2) \<noteq> NaN"
  shows "(\<exists>d. check_args conv argv = Inl d) \<longleftrightarrow>
       \<not> (c_le (conv (argv ! 1)) (Num 90) \<and> c_le (Num 30) (conv (argv ! 2))
           \<and> c_le (conv (argv ! 2)) (conv (argv ! 1)))"
proof -
  have a: "\<not> c_less (Num 90) (conv (argv ! 1)) \<longleftrightarrow> c_le (conv (argv ! 1)) (Num 90)"
    using assms(2) by (intro c_not_less_iff_le) simp_all
  have b: "\<not> c_less (conv (argv ! 2)) (Num 30) \<longleftrightarrow> c_le (Num 30) (conv (argv ! 2))"
    using assms(3) by (intro c_not_less_iff_le) simp_all
  have c: "\<not> c_less (conv (argv ! 1)) (conv (argv ! 2)) \<longleftrightarrow> c_le (conv (argv ! 2)) (conv (argv ! 1))"
    using assms(2,3) by (intro c_not_less_iff_le)
  from assms(1) a b c show ?thesis
    by (auto simp: check_args_def Let_def)
qed

lemma check_args_usage:
  "length argv < 4 \<Longrightarrow>
     main w argv = ([Stderr (Usage (case argv of [] \<Rightarrow> None | a # _ \<Rightarrow> Some a))], Exited 255)"
  by (rule main_fatal) (simp add: check_args_def)

text \<open>The four configurations of the specification.\<close>

lemma check_args_examples:
  "check_args example_strtod [''krun'', ''91'', ''50'', ''true''] = Inl (HotTooHigh (Num 91))"
  "check_args example_strtod [''krun'', ''80'', ''20'', ''true''] = Inl (CoolTooLow (Num 20))"
  "check_args example_strtod [''krun'', ''50'', ''60'', ''true''] = Inl HotBelowCool"
  "check_args example_strtod [''krun'', ''70'', ''50'', ''true''] = Inr (Num 70, Num 50)"
  by (simp_all add: check_args_def example_strtod_def)

lemma example_main:
  assumes "loop example_params es initial = (ev, Break s)"
  shows "main (example_world es) example_argv = (ev, Exited (si_status s mod 256))"
proof -
  from assms have "loop \<lparr>hot_threshold = Num 75, cool_threshold = Num 60,
      temperature_features = example_features, child = 4321\<rparr>
      (passes (example_world es)) initial = (ev, Break s)"
    by (simp add: example_params_def)
  with example_check[of es] example_init example_start[of es] show ?thesis
    by (intro main_break) simp_all
qed

section \<open>The claims\<close>

text \<open>
  C1. The claim: the loop is left on the pass on which the non-blocking reap reports that
  the child has exited, and only then. The program tests the value \<^verbatim>\<open>waitid\<close> returns, which
  is 0 when the child is reaped; on the example machine a pass that reaps the child (status 3)
  stores the status and goes round again, the loop is left on the next pass, on which
  \<^verbatim>\<open>waitid\<close> fails, and a failing \<^verbatim>\<open>waitid\<close> leaves the loop though no child was reaped.
\<close>

theorem reaped_child_does_not_leave_loop:
  "loop example_params [example_env False 70 (ChildExited 3)] initial
     = ([Waitid 4321, Nanosleep cool_delay], Continue (initial\<lparr>si_status := 3\<rparr>))
   \<and> loop example_params
        [example_env False 70 (ChildExited 3), example_env False 70 (WaitError None)] initial
     = ([Waitid 4321, Nanosleep cool_delay, Waitid 4321], Break (initial\<lparr>si_status := 3\<rparr>))
   \<and> loop example_params [example_env False 70 (WaitError None)] initial
     = ([Waitid 4321], Break initial)"
  by (simp add: run_defs example_defs)

text \<open>
  C2. The claim: when the child exits, the process ends with the status the child reported.
  The program returns \<^verbatim>\<open>si.si_status\<close> as the \<^verbatim>\<open>waitid\<close> call that ends the loop leaves it,
  and that call is a failing one, not the one that reaped the child. On the example machine
  the child is reaped with status 3 on the first pass; on the second pass \<^verbatim>\<open>waitid\<close> fails and
  stores 0 in \<^verbatim>\<open>si.si_status\<close>, as Linux does; the process ends with status 0.
\<close>

theorem reaped_status_lost_at_exit:
  "loop example_params
     [example_env False 70 (ChildExited 3), example_env False 70 (WaitError (Some 0))] initial
     = ([Waitid 4321, Nanosleep cool_delay, Waitid 4321], Break (initial\<lparr>si_status := 0\<rparr>))
   \<and> main (example_world
        [example_env False 70 (ChildExited 3), example_env False 70 (WaitError (Some 0))])
        example_argv
     = ([Waitid 4321, Nanosleep cool_delay, Waitid 4321], Exited 0)"
proof -
  have "loop example_params
     [example_env False 70 (ChildExited 3), example_env False 70 (WaitError (Some 0))] initial
     = ([Waitid 4321, Nanosleep cool_delay, Waitid 4321], Break (initial\<lparr>si_status := 0\<rparr>))"
    by (simp add: run_defs example_defs)
  with example_main[OF this] show ?thesis by (simp add: initial_def)
qed

text \<open>
  C3. A pass that starts with \<^verbatim>\<open>hot\<close> clear, samples a temperature \<open>t\<close> above the hot
  threshold and is not left by \<^verbatim>\<open>break\<close> sets \<^verbatim>\<open>hot\<close>, prints the 171 line and sends SIGSTOP
  to the child's process group exactly once; the passes that follow send no SIGSTOP as long
  as \<^verbatim>\<open>hot\<close> stays set, that is while the samples are not below the cool threshold.
\<close>

theorem cool_above_hot_suspends_once:
  assumes "hot s = 0" and "sample p e = Inr t" and "c_less (hot_threshold p) (Num t)"
    and "\<not> wait_failed (reap e)"
  shows "\<exists>ev s'. pass p e s = (ev, Continue s') \<and> hot s' = 1
      \<and> Stdout (N171 t (child p)) \<in> set ev
      \<and> Kill (- child p) SIGSTOP \<in> set ev
      \<and> count_kill SIGSTOP ev = 1
      \<and> (\<forall>hs. (\<forall>e2\<in>set hs. sampled p e2 (\<lambda>t2. c_le (cool_threshold p) (Num t2))) \<longrightarrow>
            (\<exists>ev2 s2. loop p hs s' = (ev2, Continue s2) \<and> hot s2 = 1
               \<and> count_kill SIGSTOP ev2 = 0))"
proof -
  from cool_pass_shape[OF assms(1) assms(2) assms(4)] assms(3) obtain ev s' where
    a: "pass p e s = (ev, Continue s')" "hot s' = 1" "Stdout (N171 t (child p)) \<in> set ev"
       "Kill (- child p) SIGSTOP \<in> set ev" "count_kill SIGSTOP ev = 1"
    by auto
  have "\<exists>ev2 s2. loop p hs s' = (ev2, Continue s2) \<and> hot s2 = 1 \<and> count_kill SIGSTOP ev2 = 0"
    if "\<forall>e2\<in>set hs. sampled p e2 (\<lambda>t2. c_le (cool_threshold p) (Num t2))" for hs
  proof -
    from a(2) have "hot s' \<noteq> 0" by simp
    from hot_run[OF this that] a(2) show ?thesis by auto
  qed
  with a show ?thesis by blast
qed

theorem cool_above_hot_suspends_once_witness:
  "hot initial = 0
   \<and> sample example_params (example_env False 76 (StillRunning None)) = Inr 76
   \<and> c_less (hot_threshold example_params) (Num 76)
   \<and> \<not> wait_failed (reap (example_env False 76 (StillRunning None)))
   \<and> sampled example_params (example_env False 76 (StillRunning None))
        (\<lambda>t2. c_le (cool_threshold example_params) (Num t2))
   \<and> (\<exists>ev s'. pass example_params (example_env False 76 (StillRunning None)) initial
                 = (ev, Continue s')
        \<and> hot s' = 1
        \<and> Stdout (N171 76 (child example_params)) \<in> set ev
        \<and> Kill (- child example_params) SIGSTOP \<in> set ev
        \<and> count_kill SIGSTOP ev = 1
        \<and> (\<exists>ev2 s2. loop example_params [example_env False 76 (StillRunning None)] s'
                      = (ev2, Continue s2)
             \<and> hot s2 = 1 \<and> count_kill SIGSTOP ev2 = 0))"
proof -
  let ?E = "example_env False 76 (StillRunning None)"
  have h1: "hot initial = 0" by (simp add: initial_def)
  have h2: "sample example_params ?E = Inr 76" by (simp add: example_sample)
  have h3: "c_less (hot_threshold example_params) (Num 76)" by simp
  have h4: "\<not> wait_failed (reap ?E)" by simp
  have h5: "sampled example_params ?E (\<lambda>t2. c_le (cool_threshold example_params) (Num t2))"
    by (simp add: example_sampled)
  then have h6: "\<forall>e2\<in>set [?E]. sampled example_params e2 (\<lambda>t2. c_le (cool_threshold example_params) (Num t2))"
    by simp
  from cool_above_hot_suspends_once[OF h1 h2 h3 h4] obtain ev s' where
    a: "pass example_params ?E initial = (ev, Continue s')" "hot s' = 1"
       "Stdout (N171 76 (child example_params)) \<in> set ev"
       "Kill (- child example_params) SIGSTOP \<in> set ev" "count_kill SIGSTOP ev = 1"
    and r: "\<forall>hs. (\<forall>e2\<in>set hs. sampled example_params e2 (\<lambda>t2. c_le (cool_threshold example_params) (Num t2)))
          \<longrightarrow> (\<exists>ev2 s2. loop example_params hs s' = (ev2, Continue s2) \<and> hot s2 = 1
                 \<and> count_kill SIGSTOP ev2 = 0)"
    by blast
  from r h6 have "\<exists>ev2 s2. loop example_params [?E] s' = (ev2, Continue s2) \<and> hot s2 = 1
      \<and> count_kill SIGSTOP ev2 = 0"
    by blast
  with a h1 h2 h3 h4 h5 show ?thesis by blast
qed

text \<open>
  C4. A pass that starts with \<^verbatim>\<open>hot\<close> set and samples a temperature \<open>t\<close> below the cool
  threshold clears \<^verbatim>\<open>hot\<close>, prints the 172 line and sends SIGCONT to the child's process
  group exactly once (and no SIGSTOP).
\<close>

theorem hot_below_cool_resumes_once:
  assumes "hot s \<noteq> 0" and "sample p e = Inr t" and "c_less (Num t) (cool_threshold p)"
  shows "\<exists>ev s'. pass p e s = (ev, Continue s') \<and> hot s' = 0
      \<and> Stdout (N172 t (child p)) \<in> set ev
      \<and> Kill (- child p) SIGCONT \<in> set ev
      \<and> count_kill SIGCONT ev = 1 \<and> count_kill SIGSTOP ev = 0"
  using hot_pass_shape[OF assms(1) assms(2)] assms(3) by auto

theorem hot_below_cool_resumes_once_witness:
  "hot heated \<noteq> 0
   \<and> sample example_params (example_env False 58 (StillRunning None)) = Inr 58
   \<and> c_less (Num 58) (cool_threshold example_params)
   \<and> (\<exists>ev s'. pass example_params (example_env False 58 (StillRunning None)) heated
                 = (ev, Continue s')
        \<and> hot s' = 0
        \<and> Stdout (N172 58 (child example_params)) \<in> set ev
        \<and> Kill (- child example_params) SIGCONT \<in> set ev
        \<and> count_kill SIGCONT ev = 1 \<and> count_kill SIGSTOP ev = 0)"
proof -
  have h1: "hot heated \<noteq> 0" by (simp add: heated_def)
  have h2: "sample example_params (example_env False 58 (StillRunning None)) = Inr 58"
    by (simp add: example_sample)
  have h3: "c_less (Num 58) (cool_threshold example_params)" by simp
  from hot_below_cool_resumes_once[OF h1 h2 h3] h1 h2 h3 show ?thesis by blast
qed

text \<open>
  C5. SIGINT comes before the first of a run of passes that starts with \<^verbatim>\<open>hot\<close> set; the run
  stays hot (samples not below the cool threshold) up to a last pass whose sample is below
  the cool threshold. The first pass prints the 173 line, clears \<^verbatim>\<open>hot_killed\<close> and leaves
  \<^verbatim>\<open>killed\<close> set; the whole run sends no SIGKILL, resumes the child and ends with \<^verbatim>\<open>hot\<close>
  clear; the pass after it prints the 174 line and sends SIGKILL to the child once.
\<close>

theorem interrupt_while_hot_deferred:
  assumes "hot s \<noteq> 0"
    and "sigint (hd (hs @ [er]))"
    and "\<forall>e\<in>set hs. sampled p e (\<lambda>t. c_le (cool_threshold p) (Num t))"
    and "sampled p er (\<lambda>t. c_less (Num t) (cool_threshold p))"
    and "sampled p ec (\<lambda>t. True)"
  shows "\<exists>ev0 s0 ev s' evc rc.
       pass p (hd (hs @ [er])) s = (ev0, Continue s0) \<and> Stdout N173 \<in> set ev0
     \<and> hot_killed s0 = 0 \<and> killed s0 = 1
     \<and> loop p (hs @ [er]) s = (ev, Continue s') \<and> count_kill SIGKILL ev = 0
     \<and> Kill (- child p) SIGCONT \<in> set ev \<and> hot s' = 0
     \<and> pass p ec s' = (evc, rc) \<and> Stdout N174 \<in> set evc \<and> Kill (child p) SIGKILL \<in> set evc
     \<and> count_kill SIGKILL evc = 1"
proof -
  from assms(4) obtain tr where tr: "sample p er = Inr tr" "c_less (Num tr) (cool_threshold p)"
    using sampledD by blast
  from assms(5) obtain tc where tc: "sample p ec = Inr tc"
    using sampledD by blast
  have "\<exists>t. sample p (hd (hs @ [er])) = Inr t"
    using assms(3) tr(1) by (cases hs) (auto dest: sampledD)
  then obtain t0 where t0: "sample p (hd (hs @ [er])) = Inr t0" ..
  from hot_pass_shape[OF assms(1) t0] assms(2) obtain ev0 s0 where
    p0: "pass p (hd (hs @ [er])) s = (ev0, Continue s0)" "Stdout N173 \<in> set ev0"
        "hot_killed s0 = 0" "killed s0 = 1" "count_kill SIGKILL ev0 = 0"
        "hot s0 = (if c_less (Num t0) (cool_threshold p) then 0 else hot s)"
        "c_less (Num t0) (cool_threshold p) \<longrightarrow> Kill (- child p) SIGCONT \<in> set ev0"
    by auto
  have run: "\<exists>ev s'. loop p (hs @ [er]) s = (ev, Continue s') \<and> count_kill SIGKILL ev = 0
       \<and> Kill (- child p) SIGCONT \<in> set ev \<and> hot s' = 0 \<and> killed s' \<noteq> 0"
  proof (cases hs)
    case Nil
    with p0 t0 tr show ?thesis by (auto simp: loop_single)
  next
    case (Cons h hs')
    with p0 have ph: "pass p h s = (ev0, Continue s0)" by simp
    from Cons assms(3) t0 have "c_le (cool_threshold p) (Num t0)" by (auto dest: sampledD)
    with p0(6) assms(1) have h0: "hot s0 \<noteq> 0" by simp
    from Cons assms(3) have rest: "\<forall>e\<in>set hs'. sampled p e (\<lambda>t. c_le (cool_threshold p) (Num t))" by simp
    from hot_run[OF h0 rest] p0(4) obtain ev1 s1 where
      l1: "loop p hs' s0 = (ev1, Continue s1)" "count_kill SIGKILL ev1 = 0" "hot s1 = hot s0"
          "killed s1 \<noteq> 0"
      by auto
    from l1(3) h0 have h1: "hot s1 \<noteq> 0" by simp
    from hot_pass_shape[OF h1 tr(1)] tr(2) l1(4) obtain ev2 s2 where
      p2: "pass p er s1 = (ev2, Continue s2)" "count_kill SIGKILL ev2 = 0" "hot s2 = 0"
          "killed s2 \<noteq> 0" "Kill (- child p) SIGCONT \<in> set ev2"
      by auto
    from p2(1) have "loop p [er] s1 = (ev2, Continue s2)" by (simp add: loop_single)
    from loop_append[OF l1(1) this] have "loop p (hs' @ [er]) s0 = (ev1 @ ev2, Continue s2)" .
    from loop_Cons_Continue[OF ph this] Cons l1 p2 p0 show ?thesis by simp
  qed
  then obtain ev s' where l: "loop p (hs @ [er]) s = (ev, Continue s')" "count_kill SIGKILL ev = 0"
      "Kill (- child p) SIGCONT \<in> set ev" "hot s' = 0" "killed s' \<noteq> 0"
    by blast
  from cool_pass_kills[OF l(4) tc] l(5) obtain evc rc where
    "pass p ec s' = (evc, rc)" "Stdout N174 \<in> set evc" "Kill (child p) SIGKILL \<in> set evc"
    "count_kill SIGKILL evc = 1"
    by blast
  with p0 l show ?thesis by blast
qed

theorem interrupt_while_hot_deferred_witness:
  "hot heated \<noteq> 0
   \<and> sigint (hd ([example_env True 76 (StillRunning None)] @ [example_env False 58 (StillRunning None)]))
   \<and> sampled example_params (example_env True 76 (StillRunning None))
        (\<lambda>t. c_le (cool_threshold example_params) (Num t))
   \<and> sampled example_params (example_env False 58 (StillRunning None))
        (\<lambda>t. c_less (Num t) (cool_threshold example_params))
   \<and> sampled example_params (example_env False 58 (ChildExited 9)) (\<lambda>t. True)
   \<and> (\<exists>ev0 s0 ev s' evc rc.
         pass example_params
           (hd ([example_env True 76 (StillRunning None)] @ [example_env False 58 (StillRunning None)]))
           heated = (ev0, Continue s0)
       \<and> Stdout N173 \<in> set ev0 \<and> hot_killed s0 = 0 \<and> killed s0 = 1
       \<and> loop example_params
           ([example_env True 76 (StillRunning None)] @ [example_env False 58 (StillRunning None)])
           heated = (ev, Continue s')
       \<and> count_kill SIGKILL ev = 0
       \<and> Kill (- child example_params) SIGCONT \<in> set ev \<and> hot s' = 0
       \<and> pass example_params (example_env False 58 (ChildExited 9)) s' = (evc, rc)
       \<and> Stdout N174 \<in> set evc \<and> Kill (child example_params) SIGKILL \<in> set evc
       \<and> count_kill SIGKILL evc = 1)"
proof -
  let ?E0 = "example_env True 76 (StillRunning None)"
  let ?ER = "example_env False 58 (StillRunning None)"
  let ?EC = "example_env False 58 (ChildExited 9)"
  have h1: "hot heated \<noteq> 0" by (simp add: heated_def)
  have h2: "sigint (hd ([?E0] @ [?ER]))" by simp
  have h3: "sampled example_params ?E0 (\<lambda>t. c_le (cool_threshold example_params) (Num t))"
    by (simp add: example_sampled)
  then have h3': "\<forall>e\<in>set [?E0]. sampled example_params e (\<lambda>t. c_le (cool_threshold example_params) (Num t))"
    by simp
  have h4: "sampled example_params ?ER (\<lambda>t. c_less (Num t) (cool_threshold example_params))"
    by (simp add: example_sampled)
  have h5: "sampled example_params ?EC (\<lambda>t. True)" by (simp add: example_sampled)
  from interrupt_while_hot_deferred[OF h1 h2 h3' h4 h5] h1 h2 h3 h4 h5 show ?thesis by blast
qed

text \<open>
  C6. A pass that samples a temperature between the two thresholds (both included) leaves
  \<^verbatim>\<open>hot\<close> as it was, whatever it was, and sends neither SIGSTOP nor SIGCONT.
\<close>

theorem band_is_sticky:
  assumes "sample p e = Inr t" and "c_le (cool_threshold p) (Num t)" and "c_le (Num t) (hot_threshold p)"
  shows "\<exists>ev s'. (pass p e s = (ev, Continue s') \<or> pass p e s = (ev, Break s'))
      \<and> hot s' = hot s \<and> count_kill SIGSTOP ev = 0 \<and> count_kill SIGCONT ev = 0"
  using assms
  by (cases "reap e")
     (auto simp: pass_def sample_def hot_pass_def cool_pass_def handle_INT_def kill_child_def
           Let_def split: option.splits)

theorem band_is_sticky_witness:
  "sample example_params (example_env False 70 (StillRunning None)) = Inr 70
   \<and> c_le (cool_threshold example_params) (Num 70) \<and> c_le (Num 70) (hot_threshold example_params)
   \<and> (\<exists>ev s'. (pass example_params (example_env False 70 (StillRunning None)) heated
                   = (ev, Continue s')
                \<or> pass example_params (example_env False 70 (StillRunning None)) heated
                   = (ev, Break s'))
        \<and> hot s' = hot heated \<and> count_kill SIGSTOP ev = 0 \<and> count_kill SIGCONT ev = 0)
   \<and> (\<exists>ev s'. (pass example_params (example_env False 70 (StillRunning None)) initial
                   = (ev, Continue s')
                \<or> pass example_params (example_env False 70 (StillRunning None)) initial
                   = (ev, Break s'))
        \<and> hot s' = hot initial \<and> count_kill SIGSTOP ev = 0 \<and> count_kill SIGCONT ev = 0)"
proof -
  have h1: "sample example_params (example_env False 70 (StillRunning None)) = Inr 70"
    by (simp add: example_sample)
  have h2: "c_le (cool_threshold example_params) (Num 70)" by simp
  have h3: "c_le (Num 70) (hot_threshold example_params)" by simp
  from band_is_sticky[OF h1 h2 h3, of heated] band_is_sticky[OF h1 h2 h3, of initial] h1 h2 h3
  show ?thesis by blast
qed

text \<open>
  C7. The claim: the thresholds are refused exactly when they break hot \<open>\<le>\<close> 90, cool \<open>\<ge>\<close> 30
  or hot \<open>\<ge>\<close> cool. The program tests \<^verbatim>\<open>hot > 90.0\<close>, \<^verbatim>\<open>cool < 30.0\<close> and \<^verbatim>\<open>hot < cool\<close>, which
  are all false on a not-a-number. With the arguments \<^verbatim>\<open>nan nan\<close> the thresholds break the
  three conditions and are accepted; the loop is entered, and a sample of 100 degrees does
  not suspend the child.
\<close>

theorem nan_thresholds_accepted:
  "check_args example_strtod nan_argv = Inr (NaN, NaN)
   \<and> \<not> c_le NaN (Num 90) \<and> \<not> c_le (Num 30) NaN \<and> \<not> c_le NaN NaN
   \<and> main (example_world [example_env False 100 (StillRunning None)]) nan_argv
       = ([Waitid 4321, Nanosleep cool_delay], Running initial)"
proof -
  have c: "check_args example_strtod nan_argv = Inr (NaN, NaN)"
    by (simp add: check_args_def example_strtod_def nan_argv_def)
  have l: "loop \<lparr>hot_threshold = NaN, cool_threshold = NaN, temperature_features = example_features,
      child = 4321\<rparr> [example_env False 100 (StillRunning None)] initial
      = ([Waitid 4321, Nanosleep cool_delay], Continue initial)"
    by (simp add: run_defs example_env_def example_features_def example_read_def)
  have "main (example_world [example_env False 100 (StillRunning None)]) nan_argv
       = ([Waitid 4321, Nanosleep cool_delay], Running initial)"
    using c l example_init example_start[of "[example_env False 100 (StillRunning None)]"]
    by (simp add: main_def example_world_def)
  with c show ?thesis by simp
qed

text \<open>
  C8 (as amended). When every read succeeds, \<^verbatim>\<open>detect_temp\<close> returns the greatest of -1.0 and
  the values read; this is the greatest value read as soon as one of them is at least -1.0.
\<close>

theorem detect_temp_floor_max:
  assumes "all_read rd fs"
  shows "detect_temp rd fs = Inr (Max (insert (- 1) (set (readings rd fs))))
     \<and> ((\<exists>v\<in>set (readings rd fs). - 1 \<le> v) \<longrightarrow>
          detect_temp rd fs = Inr (Max (set (readings rd fs))))"
proof -
  have a: "detect_temp rd fs = Inr (Max (insert (- 1) (set (readings rd fs))))"
    using detect_temp_from_max[OF assms] by (simp add: detect_temp_def)
  have "Max (insert (- 1) (set (readings rd fs))) = Max (set (readings rd fs))"
    if "\<exists>v\<in>set (readings rd fs). - 1 \<le> v"
  proof -
    from that obtain v where v: "v \<in> set (readings rd fs)" "- 1 \<le> v" by blast
    then have ne: "set (readings rd fs) \<noteq> {}" by auto
    have "v \<le> Max (set (readings rd fs))" using v(1) by simp
    with v(2) have "- 1 \<le> Max (set (readings rd fs))" by linarith
    then show ?thesis using ne by (simp add: max_def)
  qed
  with a show ?thesis by simp
qed

theorem detect_temp_floor_max_witness:
  "all_read example_ramp example_features
   \<and> readings example_ramp example_features = [40, 41, 42, 43, 44, 45]
   \<and> (\<exists>v\<in>set (readings example_ramp example_features). - 1 \<le> v)
   \<and> detect_temp example_ramp example_features = Inr 45"
proof -
  have h: "all_read example_ramp example_features"
    by (simp add: all_read_def example_features_def example_ramp_def)
  have r: "readings example_ramp example_features = [40, 41, 42, 43, 44, 45]"
    by (simp add: readings_def example_features_def example_ramp_def)
  have b: "\<exists>v\<in>set (readings example_ramp example_features). - 1 \<le> v" by (simp add: r)
  from detect_temp_floor_max[OF h] b
  have "detect_temp example_ramp example_features
      = Inr (Max (set (readings example_ramp example_features)))"
    by blast
  then have "detect_temp example_ramp example_features = Inr 45" by (simp add: r)
  with h r b show ?thesis by blast
qed

text \<open>The claim as it stands says that the greatest value read is returned whatever the
  values are. With six sensors that all read -2.0 every read succeeds, the greatest value
  read is -2.0 and \<^verbatim>\<open>detect_temp\<close> returns -1.0.\<close>

theorem detect_temp_not_max_counterexample:
  "all_read (example_read (- 2)) example_features
   \<and> Max (set (readings (example_read (- 2)) example_features)) = - 2
   \<and> detect_temp (example_read (- 2)) example_features = Inr (- 1)"
  by (simp add: all_read_def readings_def detect_temp_def example_features_def example_read_def)

text \<open>
  C9. SIGINT comes before a pass that starts with \<^verbatim>\<open>hot\<close> clear: the pass prints the 174
  line, sends SIGKILL, clears \<^verbatim>\<open>killed\<close> and leaves \<^verbatim>\<open>hot_killed\<close> set. No further SIGINT
  comes. If the child is not reaped and a later pass samples a temperature above the hot
  threshold, the run so far has sent one SIGKILL and printed no 173 line, \<^verbatim>\<open>hot_killed\<close> is
  still set, and the first pass with \<^verbatim>\<open>hot\<close> set prints the 173 line.
\<close>

theorem stale_hot_killed_notice:
  assumes "hot s = 0"
    and "sigint e0" and "sampled p e0 (\<lambda>t. c_le (Num t) (hot_threshold p))" and "\<not> wait_failed (reap e0)"
    and "\<forall>e\<in>set cs. \<not> sigint e \<and> sampled p e (\<lambda>t. c_le (Num t) (hot_threshold p)) \<and> \<not> wait_failed (reap e)"
    and "\<not> sigint eh" and "sampled p eh (\<lambda>t. c_less (hot_threshold p) (Num t))" and "\<not> wait_failed (reap eh)"
    and "\<not> sigint e1" and "sampled p e1 (\<lambda>t. True)"
  shows "\<exists>ev0 s0 ev s' ev1 r1.
       pass p e0 s = (ev0, Continue s0) \<and> Stdout N174 \<in> set ev0 \<and> Kill (child p) SIGKILL \<in> set ev0
     \<and> killed s0 = 0 \<and> hot_killed s0 = 1
     \<and> loop p (e0 # cs @ [eh]) s = (ev, Continue s') \<and> count_kill SIGKILL ev = 1
     \<and> Stdout N173 \<notin> set ev \<and> hot s' = 1 \<and> killed s' = 0 \<and> hot_killed s' = 1
     \<and> pass p e1 s' = (ev1, r1) \<and> Stdout N173 \<in> set ev1"
proof -
  from assms(3) obtain t0 where t0: "sample p e0 = Inr t0" "c_le (Num t0) (hot_threshold p)"
    using sampledD by blast
  from assms(7) obtain th where th: "sample p eh = Inr th" "c_less (hot_threshold p) (Num th)"
    using sampledD by blast
  from assms(10) obtain t1 where t1: "sample p e1 = Inr t1"
    using sampledD by blast
  from cool_pass_shape[OF assms(1) t0(1) assms(4)] assms(2) t0(2) obtain ev0 s0 where
    p0: "pass p e0 s = (ev0, Continue s0)" "hot s0 = 0" "killed s0 = 0" "hot_killed s0 = 1"
        "count_kill SIGKILL ev0 = 1" "Stdout N174 \<in> set ev0" "Kill (child p) SIGKILL \<in> set ev0"
        "Stdout N173 \<notin> set ev0"
    by auto
  from cool_run[OF p0(2) p0(3) assms(5)] obtain evc sc where
    lc: "loop p cs s0 = (evc, Continue sc)" "hot sc = 0" "killed sc = 0"
        "hot_killed sc = hot_killed s0" "count_kill SIGKILL evc = 0" "Stdout N173 \<notin> set evc"
    by auto
  from cool_pass_shape[OF lc(2) th(1) assms(8)] assms(6) th(2) lc(3) obtain evh sh where
    ph: "pass p eh sc = (evh, Continue sh)" "hot sh = 1" "killed sh = 0"
        "hot_killed sh = hot_killed sc" "count_kill SIGKILL evh = 0" "Stdout N173 \<notin> set evh"
    by auto
  from ph(1) have "loop p [eh] sc = (evh, Continue sh)" by (simp add: loop_single)
  from loop_append[OF lc(1) this] have "loop p (cs @ [eh]) s0 = (evc @ evh, Continue sh)" .
  from loop_Cons_Continue[OF p0(1) this]
  have run: "loop p (e0 # cs @ [eh]) s = (ev0 @ evc @ evh, Continue sh)" .
  have hk: "hot_killed sh = 1" using ph(4) lc(4) p0(4) by simp
  have "hot sh \<noteq> 0" using ph(2) by simp
  from hot_pass_shape[OF this t1] hk obtain ev1 s2 where
    p1: "pass p e1 sh = (ev1, Continue s2)" "Stdout N173 \<in> set ev1"
    by auto
  have cnt: "count_kill SIGKILL (ev0 @ evc @ evh) = 1" using p0(5) lc(5) ph(5) by simp
  have no: "Stdout N173 \<notin> set (ev0 @ evc @ evh)" using p0(8) lc(6) ph(6) by simp
  from p0 run cnt no ph(2) ph(3) hk p1 show ?thesis by blast
qed

theorem stale_hot_killed_notice_witness:
  "hot initial = 0
   \<and> sigint (example_env True 70 (StillRunning None))
   \<and> sampled example_params (example_env True 70 (StillRunning None))
        (\<lambda>t. c_le (Num t) (hot_threshold example_params))
   \<and> \<not> wait_failed (reap (example_env True 70 (StillRunning None)))
   \<and> \<not> sigint (example_env False 70 (StillRunning None))
   \<and> sampled example_params (example_env False 70 (StillRunning None))
        (\<lambda>t. c_le (Num t) (hot_threshold example_params))
   \<and> \<not> wait_failed (reap (example_env False 70 (StillRunning None)))
   \<and> \<not> sigint (example_env False 76 (StillRunning None))
   \<and> sampled example_params (example_env False 76 (StillRunning None))
        (\<lambda>t. c_less (hot_threshold example_params) (Num t))
   \<and> \<not> wait_failed (reap (example_env False 76 (StillRunning None)))
   \<and> sampled example_params (example_env False 76 (StillRunning None)) (\<lambda>t. True)
   \<and> (\<exists>ev0 s0 ev s' ev1 r1.
         pass example_params (example_env True 70 (StillRunning None)) initial = (ev0, Continue s0)
       \<and> Stdout N174 \<in> set ev0 \<and> Kill (child example_params) SIGKILL \<in> set ev0
       \<and> killed s0 = 0 \<and> hot_killed s0 = 1
       \<and> loop example_params
           (example_env True 70 (StillRunning None)
            # [example_env False 70 (StillRunning None)] @ [example_env False 76 (StillRunning None)])
           initial = (ev, Continue s')
       \<and> count_kill SIGKILL ev = 1 \<and> Stdout N173 \<notin> set ev
       \<and> hot s' = 1 \<and> killed s' = 0 \<and> hot_killed s' = 1
       \<and> pass example_params (example_env False 76 (StillRunning None)) s' = (ev1, r1)
       \<and> Stdout N173 \<in> set ev1)"
proof -
  let ?E0 = "example_env True 70 (StillRunning None)"
  let ?EC = "example_env False 70 (StillRunning None)"
  let ?EH = "example_env False 76 (StillRunning None)"
  have h1: "hot initial = 0" by (simp add: initial_def)
  have h2: "sigint ?E0" by simp
  have h3: "sampled example_params ?E0 (\<lambda>t. c_le (Num t) (hot_threshold example_params))"
    by (simp add: example_sampled)
  have h4: "\<not> wait_failed (reap ?E0)" by simp
  have c1: "\<not> sigint ?EC" by simp
  have c2: "sampled example_params ?EC (\<lambda>t. c_le (Num t) (hot_threshold example_params))"
    by (simp add: example_sampled)
  have c3: "\<not> wait_failed (reap ?EC)" by simp
  from c1 c2 c3
  have h5: "\<forall>e\<in>set [?EC]. \<not> sigint e \<and> sampled example_params e (\<lambda>t. c_le (Num t) (hot_threshold example_params))
      \<and> \<not> wait_failed (reap e)"
    by simp
  have h6: "\<not> sigint ?EH" by simp
  have h7: "sampled example_params ?EH (\<lambda>t. c_less (hot_threshold example_params) (Num t))"
    by (simp add: example_sampled)
  have h8: "\<not> wait_failed (reap ?EH)" by simp
  have h10: "sampled example_params ?EH (\<lambda>t. True)" by (simp add: example_sampled)
  from stale_hot_killed_notice[OF h1 h2 h3 h4 h5 h6 h7 h8 h6 h10]
    h1 h2 h3 h4 c1 c2 c3 h6 h7 h8 h10
  show ?thesis by blast
qed

text \<open>
  C10. A pass that starts with \<^verbatim>\<open>hot\<close> set never calls \<^verbatim>\<open>waitid\<close> and is never left by
  \<^verbatim>\<open>break\<close>, whatever it samples. So, from a state with
  \<^verbatim>\<open>hot\<close> set and as long as no sample is below the cool threshold, a run of any length
  calls \<^verbatim>\<open>waitid\<close> on no pass, is never left by \<^verbatim>\<open>break\<close>, keeps \<^verbatim>\<open>hot\<close> where it goes on,
  and is the same run whatever \<^verbatim>\<open>waitid\<close> would have found (a child that has exited is not
  noticed).
\<close>

theorem hot_never_reaps:
  assumes "hot s \<noteq> 0" and "\<forall>e\<in>set es. \<not> sampled p e (\<lambda>t. c_less (Num t) (cool_threshold p))"
  shows "(\<forall>e q. Waitid q \<notin> set (fst (pass p e s)))
     \<and> (\<forall>e s'. snd (pass p e s) \<noteq> Break s')
     \<and> (\<forall>q. Waitid q \<notin> set (fst (loop p es s)))
     \<and> (\<forall>s'. snd (loop p es s) \<noteq> Break s')
     \<and> (\<forall>s'. snd (loop p es s) = Continue s' \<longrightarrow> hot s' = hot s)
     \<and> loop p (map (\<lambda>e. e\<lparr>reap := w\<rparr>) es) s = loop p es s"
proof -
  have one: "(\<forall>e q. Waitid q \<notin> set (fst (pass p e s))) \<and> (\<forall>e s'. snd (pass p e s) \<noteq> Break s')"
    using hot_pass_no_reap[OF assms(1)] by blast
  have run: "(\<forall>q. Waitid q \<notin> set (fst (loop p es s)))
     \<and> (\<forall>s'. snd (loop p es s) \<noteq> Break s')
     \<and> (\<forall>s'. snd (loop p es s) = Continue s' \<longrightarrow> hot s' = hot s)
     \<and> loop p (map (\<lambda>e. e\<lparr>reap := w\<rparr>) es) s = loop p es s"
    using assms
  proof (induction es arbitrary: s)
    case Nil
    then show ?case by simp
  next
    case (Cons e es)
    from Cons.prems have e: "\<not> sampled p e (\<lambda>t. c_less (Num t) (cool_threshold p))"
      and rest: "\<forall>e\<in>set es. \<not> sampled p e (\<lambda>t. c_less (Num t) (cool_threshold p))" by simp_all
    have ig: "pass p (e\<lparr>reap := w\<rparr>) s = pass p e s"
      using hot_pass_ignores_reap[OF Cons.prems(1)] .
    from hot_pass_stays[OF Cons.prems(1) e] show ?case
    proof (elim disjE exE conjE)
      fix ev d assume "pass p e s = (ev, Exit d)" "\<forall>q. Waitid q \<notin> set ev"
      then show ?thesis using ig by simp
    next
      fix ev s' assume a: "pass p e s = (ev, Continue s')" "hot s' = hot s" "\<forall>q. Waitid q \<notin> set ev"
      with Cons.prems(1) have "hot s' \<noteq> 0" by simp
      from Cons.IH[OF this rest] a ig show ?thesis
        by (cases "loop p es s'") auto
    qed
  qed
  from one run show ?thesis by blast
qed

theorem hot_never_reaps_witness:
  "hot heated \<noteq> 0
   \<and> \<not> sampled example_params (example_env False 76 (ChildExited 0))
         (\<lambda>t. c_less (Num t) (cool_threshold example_params))
   \<and> \<not> sampled example_params (example_env False 60 (ChildExited 0))
         (\<lambda>t. c_less (Num t) (cool_threshold example_params))
   \<and> (\<forall>q. Waitid q \<notin> set (fst (pass example_params (example_env False 58 (ChildExited 0)) heated)))
   \<and> (\<forall>s'. snd (pass example_params (example_env False 58 (ChildExited 0)) heated) \<noteq> Break s')
   \<and> (\<forall>q. Waitid q \<notin> set (fst (loop example_params
         [example_env False 76 (ChildExited 0), example_env False 60 (ChildExited 0)] heated)))
   \<and> (\<forall>s'. snd (loop example_params
         [example_env False 76 (ChildExited 0), example_env False 60 (ChildExited 0)] heated)
         \<noteq> Break s')
   \<and> snd (loop example_params
         [example_env False 76 (ChildExited 0), example_env False 60 (ChildExited 0)] heated)
       = Continue heated
   \<and> loop example_params
       (map (\<lambda>e. e\<lparr>reap := StillRunning None\<rparr>)
         [example_env False 76 (ChildExited 0), example_env False 60 (ChildExited 0)]) heated
     = loop example_params
         [example_env False 76 (ChildExited 0), example_env False 60 (ChildExited 0)] heated"
proof -
  let ?A = "example_env False 76 (ChildExited 0)"
  let ?B = "example_env False 60 (ChildExited 0)"
  have h1: "hot heated \<noteq> 0" by (simp add: heated_def)
  have a: "\<not> sampled example_params ?A (\<lambda>t. c_less (Num t) (cool_threshold example_params))"
    by (simp add: example_sampled)
  have b: "\<not> sampled example_params ?B (\<lambda>t. c_less (Num t) (cool_threshold example_params))"
    by (simp add: example_sampled)
  from a b have h2: "\<forall>e\<in>set [?A, ?B]. \<not> sampled example_params e (\<lambda>t. c_less (Num t) (cool_threshold example_params))"
    by simp
  have v: "snd (loop example_params [?A, ?B] heated) = Continue heated"
    by (simp add: run_defs example_defs)
  from hot_never_reaps[OF h1 h2, of "StillRunning None"] h1 a b v show ?thesis by blast
qed

end
